theory Spec2Isabelle
  imports Main
begin

section \<open>Codec\<close>

text \<open>
  Strings are lists of \<^typ>\<open>char\<close>; a character stands for one code unit of the
  source string with a value below 256. The characters the protocol reserves:
\<close>

definition backslash :: char where "backslash = CHR 0x5C"
definition slash :: char where "slash = CHR 0x2F"
definition pipe :: char where "pipe = CHR 0x7C"
definition newline :: char where "newline = CHR 0x0A"
definition carriage_return :: char where "carriage_return = CHR 0x0D"
definition tab :: char where "tab = CHR 0x09"
definition vertical_tab :: char where "vertical_tab = CHR 0x0B"
definition form_feed :: char where "form_feed = CHR 0x0C"
definition space :: char where "space = CHR 0x20"

text \<open>
  \<^verbatim>\<open>str.replace(/c/g, r)\<close> for a pattern of one character: every occurrence of
  \<open>c\<close> becomes \<open>r\<close>.
\<close>

fun replace_char :: "char \<Rightarrow> string \<Rightarrow> string \<Rightarrow> string" where
  "replace_char c r [] = []"
| "replace_char c r (x # xs) = (if x = c then r @ replace_char c r xs else x # replace_char c r xs)"

text \<open>
  \<^verbatim>\<open>str.replace(/ab/g, r)\<close> for a pattern of two characters: the scan runs from the
  left, a match consumes both characters, and the replacement text is not scanned again.
\<close>

fun replace_pair :: "char \<Rightarrow> char \<Rightarrow> string \<Rightarrow> string \<Rightarrow> string" where
  "replace_pair a b r (x # y # xs) =
     (if x = a \<and> y = b then r @ replace_pair a b r xs else x # replace_pair a b r (y # xs))"
| "replace_pair a b r xs = xs"

text \<open>\<^verbatim>\<open>TeamspeakQuery.escape\<close>, on a value that is already a string.\<close>

definition escape :: "string \<Rightarrow> string" where
  "escape str =
     replace_char space [backslash, CHR ''s'']
      (replace_char form_feed [backslash, CHR ''f'']
       (replace_char vertical_tab [backslash, CHR ''v'']
        (replace_char tab [backslash, CHR ''t'']
         (replace_char carriage_return [backslash, CHR ''r'']
          (replace_char newline [backslash, CHR ''n'']
           (replace_char pipe [backslash, CHR ''p'']
            (replace_char slash [backslash, slash]
             (replace_char backslash [backslash, backslash] str))))))))"

text \<open>\<^verbatim>\<open>TeamspeakQuery.unescape\<close>: nine passes over the string, in the source's order.\<close>

definition unescape :: "string \<Rightarrow> string" where
  "unescape str =
     replace_pair backslash (CHR ''s'') [space]
      (replace_pair backslash (CHR ''f'') [form_feed]
       (replace_pair backslash (CHR ''v'') [vertical_tab]
        (replace_pair backslash (CHR ''t'') [tab]
         (replace_pair backslash (CHR ''r'') [carriage_return]
          (replace_pair backslash (CHR ''n'') [newline]
           (replace_pair backslash (CHR ''p'') [pipe]
            (replace_pair backslash slash [slash]
             (replace_pair backslash backslash [backslash] str))))))))"

section \<open>Values and objects\<close>

text \<open>
  The values a parsed field can hold. A field is a string or an array; the other
  constructors are what a lookup can return for a name that the object does not own:
  \<open>JUndefined\<close> for a name found nowhere, and, through the prototype chain, a
  built-in function (named by the prototype that holds it and its key), the object
  \<^verbatim>\<open>Object.prototype\<close> itself (the value of \<^verbatim>\<open>__proto__\<close>), or the number that is
  the \<^verbatim>\<open>length\<close> of an array.
\<close>

datatype jsval =
    JUndefined
  | JStr string
  | JNum nat
  | JArr "jsval list"
  | JFun string string
  | JObjectPrototype

text \<open>
  An object created by the literal \<^verbatim>\<open>{ }\<close>: its own properties in creation order, and
  its prototype, which is \<^verbatim>\<open>Object.prototype\<close> (\<open>None\<close>) until an assignment to
  \<^verbatim>\<open>__proto__\<close> replaces it by an array (\<open>Some a\<close>, whose own prototype is
  \<^verbatim>\<open>Array.prototype\<close>).
\<close>

record object =
  own :: "(string \<times> jsval) list"
  proto :: "jsval list option"

definition empty_object :: object where
  "empty_object = \<lparr>own = [], proto = None\<rparr>"

text \<open>
  The string-keyed properties of \<^verbatim>\<open>Object.prototype\<close> other than \<^verbatim>\<open>__proto__\<close>; all
  are functions.
\<close>

definition object_prototype_keys :: "string list" where
  "object_prototype_keys =
     [''constructor'', ''__defineGetter__'', ''__defineSetter__'', ''hasOwnProperty'',
      ''__lookupGetter__'', ''__lookupSetter__'', ''isPrototypeOf'', ''propertyIsEnumerable'',
      ''toString'', ''valueOf'', ''toLocaleString'']"

text \<open>
  The string-keyed properties of \<^verbatim>\<open>Array.prototype\<close> other than \<^verbatim>\<open>length\<close>, as of
  ECMAScript 2023; all are functions.
\<close>

definition array_prototype_keys :: "string list" where
  "array_prototype_keys =
     [''constructor'', ''at'', ''concat'', ''copyWithin'', ''fill'', ''find'', ''findIndex'',
      ''findLast'', ''findLastIndex'', ''lastIndexOf'', ''pop'', ''push'', ''reverse'',
      ''shift'', ''unshift'', ''slice'', ''sort'', ''splice'', ''includes'', ''indexOf'',
      ''join'', ''keys'', ''entries'', ''values'', ''forEach'', ''filter'', ''flat'',
      ''flatMap'', ''map'', ''every'', ''some'', ''reduce'', ''reduceRight'',
      ''toLocaleString'', ''toString'', ''toReversed'', ''toSorted'', ''toSpliced'', ''with'']"

subsection \<open>Decimal numerals\<close>

definition is_digit :: "char \<Rightarrow> bool" where
  "is_digit c = (c \<in> set ''0123456789'')"

definition digit_value :: "char \<Rightarrow> int" where
  "digit_value c = of_char c - 48"

definition digit_char :: "nat \<Rightarrow> char" where
  "digit_char d = char_of (48 + d)"

fun decimal :: "nat \<Rightarrow> string" where
  "decimal n = (if n < 10 then [digit_char n] else decimal (n div 10) @ [digit_char (n mod 10)])"

declare decimal.simps [simp del]

text \<open>The number a string of digits denotes (0 for the empty string).\<close>

definition number_of_digits :: "string \<Rightarrow> int" where
  "number_of_digits ds = foldl (\<lambda>n c. 10 * n + digit_value c) 0 ds"

text \<open>
  An array index is the canonical decimal numeral (no leading zero) of a number below
  \<open>2^32 - 1\<close>.
\<close>

definition array_index :: "string \<Rightarrow> int option" where
  "array_index k =
     (if k \<noteq> [] \<and> list_all is_digit k \<and> (k = ''0'' \<or> hd k \<noteq> CHR ''0'')
         \<and> number_of_digits k < 4294967295
      then Some (number_of_digits k) else None)"

subsection \<open>Property lookup\<close>

text \<open>
  What the prototype chain holds for a key. Below an array \<open>a\<close> the chain is: the
  array's elements and \<^verbatim>\<open>length\<close>, then \<^verbatim>\<open>Array.prototype\<close>, then
  \<^verbatim>\<open>Object.prototype\<close>, whose \<^verbatim>\<open>__proto__\<close> getter returns the receiver's prototype.
\<close>

definition object_prototype_get :: "jsval \<Rightarrow> string \<Rightarrow> jsval option" where
  "object_prototype_get p k =
     (if k = ''__proto__'' then Some p
      else if k \<in> set object_prototype_keys then Some (JFun ''Object.prototype'' k)
      else None)"

definition inherited :: "jsval list option \<Rightarrow> string \<Rightarrow> jsval option" where
  "inherited pr k =
     (case pr of
        None \<Rightarrow> object_prototype_get JObjectPrototype k
      | Some a \<Rightarrow>
          (case array_index k of
             Some i \<Rightarrow> if i < int (length a) then Some (a ! nat i) else None
           | None \<Rightarrow>
               if k = ''length'' then Some (JNum (length a))
               else if k \<in> set array_prototype_keys then Some (JFun ''Array.prototype'' k)
               else object_prototype_get (JArr a) k))"

text \<open>\<^verbatim>\<open>k in obj\<close>\<close>

definition has_property :: "object \<Rightarrow> string \<Rightarrow> bool" where
  "has_property obj k = (map_of (own obj) k \<noteq> None \<or> inherited (proto obj) k \<noteq> None)"

text \<open>\<^verbatim>\<open>obj[k]\<close>\<close>

definition get :: "object \<Rightarrow> string \<Rightarrow> jsval" where
  "get obj k =
     (case map_of (own obj) k of
        Some v \<Rightarrow> v
      | None \<Rightarrow> (case inherited (proto obj) k of Some v \<Rightarrow> v | None \<Rightarrow> JUndefined))"

text \<open>\<^verbatim>\<open>type(v) === 'array'\<close>\<close>

fun is_array :: "jsval \<Rightarrow> bool" where
  "is_array (JArr _) = True"
| "is_array _ = False"

text \<open>
  Writing an own property: an existing one keeps its place, a new one is added last.
\<close>

fun put_own :: "(string \<times> jsval) list \<Rightarrow> string \<Rightarrow> jsval \<Rightarrow> (string \<times> jsval) list" where
  "put_own [] k v = [(k, v)]"
| "put_own ((k', v') # kvs) k v = (if k' = k then (k, v) # kvs else (k', v') # put_own kvs k v)"

text \<open>
  \<^verbatim>\<open>obj[k] = v\<close>. Every inherited property is a writable data property, which the
  assignment shadows by an own one, except \<^verbatim>\<open>__proto__\<close>: its setter replaces the
  prototype when the value is an object and ignores every other value.
\<close>

definition assign :: "object \<Rightarrow> string \<Rightarrow> jsval \<Rightarrow> object" where
  "assign obj k v =
     (if k = ''__proto__'' \<and> map_of (own obj) k = None then
        (case v of
           JArr a \<Rightarrow> obj\<lparr>proto := Some a\<rparr>
         | JObjectPrototype \<Rightarrow> obj\<lparr>proto := None\<rparr>
         | _ \<Rightarrow> obj)
      else obj\<lparr>own := put_own (own obj) k v\<rparr>)"

text \<open>
  \<^verbatim>\<open>obj[k].push(v)\<close> where \<^verbatim>\<open>obj[k]\<close> is an array: the array is changed in place,
  wherever it lives (an own property, the prototype itself, or an element of it).
\<close>

definition push :: "object \<Rightarrow> string \<Rightarrow> jsval \<Rightarrow> object" where
  "push obj k v =
     (case map_of (own obj) k of
        Some (JArr xs) \<Rightarrow> obj\<lparr>own := put_own (own obj) k (JArr (xs @ [v]))\<rparr>
      | Some _ \<Rightarrow> obj
      | None \<Rightarrow>
          (case proto obj of
             None \<Rightarrow> obj
           | Some a \<Rightarrow>
               (case array_index k of
                  Some i \<Rightarrow>
                    (if i < int (length a) then
                       (case a ! nat i of
                          JArr xs \<Rightarrow> obj\<lparr>proto := Some (a[nat i := JArr (xs @ [v])])\<rparr>
                        | _ \<Rightarrow> obj)
                     else obj)
                | None \<Rightarrow> if k = ''__proto__'' then obj\<lparr>proto := Some (a @ [v])\<rparr> else obj)))"

section \<open>Line parser\<close>

text \<open>
  The character classes of the tokenizer's pattern. \<^verbatim>\<open>\w\<close> is a letter, a digit or the
  underscore; \<^verbatim>\<open>\s\<close> is white space or a line terminator, which below 256 is one of
  the seven code units listed. \<^verbatim>\<open>String.prototype.trim\<close> removes the same set.
\<close>

definition is_word :: "char \<Rightarrow> bool" where
  "is_word c =
     (c \<in> set ''abcdefghijklmnopqrstuvwxyzABCDEFGHIJKLMNOPQRSTUVWXYZ0123456789_'')"

definition is_space :: "char \<Rightarrow> bool" where
  "is_space c =
     (c \<in> {tab, newline, vertical_tab, form_feed, carriage_return, space, CHR 0xA0})"

definition is_value_char :: "char \<Rightarrow> bool" where
  "is_value_char c = (\<not> is_space c \<and> c \<noteq> pipe)"

definition trim :: "string \<Rightarrow> string" where
  "trim s = rev (dropWhile is_space (rev (dropWhile is_space s)))"

text \<open>
  Matching a literal word of lower-case letters under the \<^verbatim>\<open>i\<close> flag: each character
  of the input is the letter or its capital.
\<close>

definition capital :: "char \<Rightarrow> char" where
  "capital c = char_of (of_char c - (32::nat))"

fun prefix_ci :: "string \<Rightarrow> string \<Rightarrow> bool" where
  "prefix_ci [] s = True"
| "prefix_ci (p # ps) [] = False"
| "prefix_ci (p # ps) (c # cs) = ((c = p \<or> c = capital p) \<and> prefix_ci ps cs)"

text \<open>
  One attempt of \<^verbatim>\<open>/(^error|^notify\w+|\w+=[^\s\|]+)/gi\<close> at a position of the input:
  the length of the match that starts there, if there is one. The alternatives are tried
  in order; the first two can match at the start of the input only. In the third, the
  run of word characters is followed by \<^verbatim>\<open>=\<close> only when it is taken whole, since
  \<^verbatim>\<open>=\<close> is not a word character, and the value takes every character up to the next
  white space or pipe.
\<close>

definition match_here :: "bool \<Rightarrow> string \<Rightarrow> nat option" where
  "match_here at_start s =
     (if at_start \<and> prefix_ci ''error'' s then Some 5
      else if at_start \<and> prefix_ci ''notify'' s \<and> takeWhile is_word (drop 6 s) \<noteq> []
        then Some (6 + length (takeWhile is_word (drop 6 s)))
      else
        (let w = takeWhile is_word s in
         case drop (length w) s of
           [] \<Rightarrow> None
         | c # r \<Rightarrow>
             if w \<noteq> [] \<and> c = CHR ''='' \<and> takeWhile is_value_char r \<noteq> []
             then Some (length w + 1 + length (takeWhile is_value_char r))
             else None))"

text \<open>
  \<^verbatim>\<open>str.match(...)\<close> with the \<^verbatim>\<open>g\<close> flag: all matches from left to right, each search
  starting where the previous match ended.
\<close>

function scan :: "bool \<Rightarrow> string \<Rightarrow> string list" where
  "scan at_start s =
     (if s = [] then []
      else case match_here at_start s of
             Some n \<Rightarrow> take n s # scan False (drop n s)
           | None \<Rightarrow> scan False (tl s))"
  by pat_completeness auto
termination
  by (relation "measure (\<lambda>(b, s). length s)")
     (auto simp: match_here_def Let_def split: if_splits list.splits)

declare scan.simps [simp del]

text \<open>\<^verbatim>\<open>v.split(/=/)\<close>\<close>

fun split_eq :: "string \<Rightarrow> string list" where
  "split_eq [] = [[]]"
| "split_eq (c # cs) =
     (if c = CHR ''='' then [] # split_eq cs
      else (case split_eq cs of [] \<Rightarrow> [[c]] | p # ps \<Rightarrow> (c # p) # ps))"

text \<open>
  The body of the \<^verbatim>\<open>forEach\<close> in \<^verbatim>\<open>parse\<close>. \<^verbatim>\<open>v[0]\<close> and \<^verbatim>\<open>v[1]\<close> are the first
  two pieces of the token; a missing piece is \<^verbatim>\<open>undefined\<close>, which as a key reads
  \<^verbatim>\<open>"undefined"\<close>.
\<close>

definition add_field :: "object \<Rightarrow> string \<Rightarrow> object" where
  "add_field params tok =
     (let v = map unescape (split_eq tok);
          v0 = (case v of [] \<Rightarrow> ''undefined'' | k # _ \<Rightarrow> k);
          v1 = (case v of _ # x # _ \<Rightarrow> JStr x | _ \<Rightarrow> JUndefined)
      in if has_property params v0 then
           (if \<not> is_array (get params v0) then assign params v0 (JArr [get params v0, v1])
            else push params v0 v1)
         else assign params v0 v1)"

text \<open>The result of \<^verbatim>\<open>parse\<close>: \<^verbatim>\<open>{ 'type': resType, params }\<close>.\<close>

record response =
  resType :: "string option"
  params :: object

definition parse :: "string \<Rightarrow> response option" where
  "parse str =
     (case scan True str of
        [] \<Rightarrow> None
      | t # ts \<Rightarrow>
          (if CHR ''='' \<notin> set t
           then Some \<lparr>resType = Some t, params = foldl add_field empty_object ts\<rparr>
           else Some \<lparr>resType = None, params = foldl add_field empty_object (t # ts)\<rparr>))"

section \<open>Comparison with zero\<close>

text \<open>
  \<^verbatim>\<open>x == 0\<close> converts \<open>x\<close> to a number. For a string the conversion reads a numeric
  literal between optional white space: the empty string is 0, a literal is a signed
  decimal with optional fraction and exponent, \<^verbatim>\<open>Infinity\<close>, or an unsigned
  hexadecimal, octal or binary integer, and anything else is \<^verbatim>\<open>NaN\<close>. The functions
  below return \<open>None\<close> for \<^verbatim>\<open>NaN\<close> and otherwise whether the number is zero.
\<close>

definition strip_sign :: "string \<Rightarrow> string" where
  "strip_sign s =
     (case s of [] \<Rightarrow> [] | c # r \<Rightarrow> if c = CHR ''+'' \<or> c = CHR ''-'' then r else s)"

definition radix_literal :: "string \<Rightarrow> bool option" where
  "radix_literal s =
     (case s of
        z # x # ds \<Rightarrow>
          if z = CHR ''0'' \<and> ds \<noteq> []
             \<and> ((x \<in> set ''xX'' \<and> list_all (\<lambda>c. c \<in> set ''0123456789abcdefABCDEF'') ds)
                \<or> (x \<in> set ''oO'' \<and> list_all (\<lambda>c. c \<in> set ''01234567'') ds)
                \<or> (x \<in> set ''bB'' \<and> list_all (\<lambda>c. c \<in> set ''01'') ds))
          then Some (list_all (\<lambda>c. c = CHR ''0'') ds)
          else None
      | _ \<Rightarrow> None)"

definition exponent_part :: "string \<Rightarrow> int option" where
  "exponent_part r =
     (case r of
        [] \<Rightarrow> Some 0
      | e # r' \<Rightarrow>
          if e \<in> set ''eE'' \<and> strip_sign r' \<noteq> [] \<and> list_all is_digit (strip_sign r')
          then Some (case r' of
                       [] \<Rightarrow> 0
                     | c # _ \<Rightarrow> if c = CHR ''-'' then - number_of_digits (strip_sign r')
                                else number_of_digits (strip_sign r'))
          else None)"

text \<open>
  The literal \<open>m \<times> 10^e\<close> is rounded to the nearest double, ties to even: it becomes
  zero exactly when it is at most \<open>2^-1075\<close>, half of the least positive double.
\<close>

definition rounds_to_zero :: "int \<Rightarrow> int \<Rightarrow> bool" where
  "rounds_to_zero m e = (m = 0 \<or> (e < 0 \<and> m * 2 ^ 1075 \<le> 10 ^ nat (- e)))"

definition decimal_literal :: "string \<Rightarrow> bool option" where
  "decimal_literal s =
     (let u = strip_sign s in
      if u = ''Infinity'' then Some False
      else
        (let ip = takeWhile is_digit u;
             r1 = dropWhile is_digit u;
             dot = (case r1 of [] \<Rightarrow> False | c # _ \<Rightarrow> c = CHR ''.'');
             fp = (if dot then takeWhile is_digit (tl r1) else []);
             r2 = (if dot then dropWhile is_digit (tl r1) else r1)
         in if ip = [] \<and> fp = [] then None
            else (case exponent_part r2 of
                    None \<Rightarrow> None
                  | Some e \<Rightarrow>
                      Some (rounds_to_zero (number_of_digits (ip @ fp)) (e - int (length fp))))))"

definition string_is_zero :: "string \<Rightarrow> bool" where
  "string_is_zero s =
     (let t = trim s in
      if t = [] then True
      else (case radix_literal t of
              Some z \<Rightarrow> z
            | None \<Rightarrow> (case decimal_literal t of Some z \<Rightarrow> z | None \<Rightarrow> False)))"

text \<open>
  \<^verbatim>\<open>x == 0\<close>. An array is first joined with commas, so an array of two or more elements
  is never equal to 0; \<^verbatim>\<open>undefined\<close> is not equal to 0, but as the element of an array
  it is rendered as the empty string.
\<close>

fun loose_eq_zero :: "jsval \<Rightarrow> bool" where
  "loose_eq_zero JUndefined = False"
| "loose_eq_zero (JStr s) = string_is_zero s"
| "loose_eq_zero (JNum n) = (n = 0)"
| "loose_eq_zero (JFun h k) = False"
| "loose_eq_zero JObjectPrototype = False"
| "loose_eq_zero (JArr []) = True"
| "loose_eq_zero (JArr [x]) = (x = JUndefined \<or> loose_eq_zero x)"
| "loose_eq_zero (JArr (x # y # zs)) = False"

section \<open>Command queue and session\<close>

text \<open>
  A queued command: its text, and the promise whose \<^verbatim>\<open>resolve\<close> and \<^verbatim>\<open>reject\<close> it
  holds. Promises are named by the order of their creation. \<open>data\<close> is absent until a
  data line sets it.
\<close>

record pending =
  cmd :: string
  pid :: nat
  data :: "object option"

text \<open>
  What the client does to the outside: a write to the socket, an event delivered by
  \<^verbatim>\<open>emit\<close> (name, fields, line), and the settling of a promise. What the socket and
  the holders of a promise do with them is outside the client; a call of \<^verbatim>\<open>send\<close> that
  they or a listener make is a later event of the run.
\<close>

datatype effect =
    Write string
  | Emit string object string
  | Resolve nat object
  | Reject nat object

text \<open>
  The client is an \<^verbatim>\<open>EventEmitter\<close>: it holds the listeners registered with \<^verbatim>\<open>on\<close>, each
  under the name of its event, in the order of registration. Of a listener the model
  keeps whether its call returns or throws.
\<close>

datatype listener = Returns | Throws

text \<open>
  What a handler can throw: the \<^verbatim>\<open>TypeError\<close> of reading a property of \<^verbatim>\<open>null\<close>, the
  error \<^verbatim>\<open>ERR_UNHANDLED_ERROR\<close> of the emitter, and whatever a listener throws.
\<close>

datatype error = TypeError | UnhandledError | ListenerError

text \<open>
  \<^verbatim>\<open>this.emit(name, ...)\<close>, as the emitter of the platform does it: the listeners
  registered for the name are called in order, and what one of them throws comes out of
  \<^verbatim>\<open>emit\<close>. When none is registered, \<^verbatim>\<open>emit\<close> returns, except for the name
  \<^verbatim>\<open>error\<close>, for which it throws (the argument, here the fields, is not an
  \<^verbatim>\<open>Error\<close>). The result is what is thrown, if anything.
\<close>

definition emit :: "(string \<times> listener) list \<Rightarrow> string \<Rightarrow> error option" where
  "emit ls name =
     (let called = map snd (filter (\<lambda>l. fst l = name) ls) in
      if called = [] then (if name = ''error'' then Some UnhandledError else None)
      else if Throws \<in> set called then Some ListenerError
      else None)"

text \<open>
  The client. \<open>listeners\<close> is the registry it inherits from the emitter. \<open>promises\<close>
  counts the promises created so far and \<open>effects\<close> records the effects in the order
  they happened; neither is a field of the source object.
\<close>

record client =
  queue :: "pending list"
  current :: "pending option"
  statusLines :: nat
  listeners :: "(string \<times> listener) list"
  promises :: nat
  effects :: "effect list"

definition initial :: client where
  "initial = \<lparr>queue = [], current = None, statusLines = 0, listeners = [], promises = 0,
               effects = []\<rparr>"

definition checkQueue :: "client \<Rightarrow> client" where
  "checkQueue s =
     (case current s of
        Some _ \<Rightarrow> s
      | None \<Rightarrow>
          (case queue s of
             [] \<Rightarrow> s
           | c # rest \<Rightarrow>
               s\<lparr>queue := rest, current := Some c,
                 effects := effects s @ [Write (cmd c @ [newline])]\<rparr>))"

text \<open>\<^verbatim>\<open>response.type && response.type.indexOf('notify') === 0\<close>\<close>

definition is_notify :: "string option \<Rightarrow> bool" where
  "is_notify ty = (case ty of None \<Rightarrow> False | Some t \<Rightarrow> t \<noteq> [] \<and> take 6 t = ''notify'')"

text \<open>\<^verbatim>\<open>response.type.slice(6)\<close>\<close>

definition event_name :: "string option \<Rightarrow> string" where
  "event_name ty = (case ty of None \<Rightarrow> [] | Some t \<Rightarrow> drop 6 t)"

text \<open>\<^verbatim>\<open>response.type && response.type === 'error'\<close>\<close>

definition is_error :: "string option \<Rightarrow> bool" where
  "is_error ty = (ty = Some ''error'')"

text \<open>
  \<^verbatim>\<open>handleLine\<close>. Reading \<^verbatim>\<open>resolve\<close> or \<^verbatim>\<open>reject\<close> of a \<^verbatim>\<open>_current\<close> that is
  \<^verbatim>\<open>null\<close> throws a \<^verbatim>\<open>TypeError\<close>, and \<^verbatim>\<open>emit\<close> can throw; both happen before
  anything has been changed, and the queue is not checked then.
\<close>

definition handleLine :: "string \<Rightarrow> client \<Rightarrow> error + client" where
  "handleLine line s =
     (if statusLines s < 2 then
        (let s1 = s\<lparr>statusLines := statusLines s + 1\<rparr>
         in Inr (if statusLines s1 = 2 then checkQueue s1 else s1))
      else
        (let line1 = trim line in
         case parse line1 of
           None \<Rightarrow> Inr s
         | Some response \<Rightarrow>
             if is_notify (resType response) then
               (case emit (listeners s) (event_name (resType response)) of
                  Some e \<Rightarrow> Inl e
                | None \<Rightarrow>
                    Inr (checkQueue
                      (s\<lparr>effects := effects s
                           @ [Emit (event_name (resType response)) (params response) line1]\<rparr>)))
             else if is_error (resType response) then
               (case current s of
                  None \<Rightarrow> Inl TypeError
                | Some c \<Rightarrow>
                    Inr (checkQueue
                      (s\<lparr>current := None,
                         effects := effects s
                           @ [if loose_eq_zero (get (params response) ''id'')
                              then Resolve (pid c)
                                     (case data c of Some d \<Rightarrow> d | None \<Rightarrow> params response)
                              else Reject (pid c) (params response)]\<rparr>)))
             else
               Inr (checkQueue
                 (case current s of
                    None \<Rightarrow> s
                  | Some c \<Rightarrow> s\<lparr>current := Some (c\<lparr>data := Some (params response)\<rparr>)\<rparr>))))"

subsection \<open>Submitting a command\<close>

text \<open>
  The arguments of \<^verbatim>\<open>send\<close>. A scalar is a string, a number (an integer of magnitude
  below \<open>2^53\<close>), a boolean, \<^verbatim>\<open>null\<close> or \<^verbatim>\<open>undefined\<close>; a parameter value is a
  scalar or an array of scalars. The second argument is absent, a scalar, or a plain
  object, given by its own properties in the order they were created.
\<close>

datatype scalar = SStr string | SInt int | SBool bool | SNull | SUndefined

datatype param_value = Scalar scalar | Array "scalar list"

datatype options = Absent | Flag scalar | Options "(string \<times> param_value) list"

text \<open>\<^verbatim>\<open>String(v)\<close>\<close>

fun String :: "scalar \<Rightarrow> string" where
  "String (SStr s) = s"
| "String (SInt n) = (if n < 0 then CHR ''-'' # decimal (nat (- n)) else decimal (nat n))"
| "String (SBool b) = (if b then ''true'' else ''false'')"
| "String SNull = ''null''"
| "String SUndefined = ''undefined''"

fun truthy :: "scalar \<Rightarrow> bool" where
  "truthy (SStr s) = (s \<noteq> [])"
| "truthy (SInt n) = (n \<noteq> 0)"
| "truthy (SBool b) = b"
| "truthy SNull = False"
| "truthy SUndefined = False"

text \<open>\<^verbatim>\<open>parts.join(sep)\<close>\<close>

fun join :: "string \<Rightarrow> string list \<Rightarrow> string" where
  "join sep [] = []"
| "join sep [x] = x"
| "join sep (x # y # ys) = x @ sep @ join sep (y # ys)"

text \<open>
  The order in which \<^verbatim>\<open>for (key in options)\<close> visits the properties of an object:
  the keys that are array indices in ascending numeric order, then the other keys in the
  order of their creation.
\<close>

definition index_of_key :: "string \<times> 'a \<Rightarrow> int" where
  "index_of_key kv = (case array_index (fst kv) of None \<Rightarrow> 0 | Some i \<Rightarrow> i)"

definition for_in :: "(string \<times> 'a) list \<Rightarrow> (string \<times> 'a) list" where
  "for_in kvs =
     sort_key index_of_key (filter (\<lambda>kv. array_index (fst kv) \<noteq> None) kvs)
     @ filter (\<lambda>kv. array_index (fst kv) = None) kvs"

text \<open>
  The body of the \<^verbatim>\<open>for\<close> loop of \<^verbatim>\<open>send\<close>, which pushes one element on
  \<^verbatim>\<open>cmdStringParts\<close> for each key.
\<close>

fun push_params :: "string list \<Rightarrow> (string \<times> param_value) list \<Rightarrow> string list" where
  "push_params cmdStringParts [] = cmdStringParts"
| "push_params cmdStringParts ((key, Array val) # rest) =
     push_params
       (cmdStringParts @ [join [pipe] (map (\<lambda>v. escape key @ ''='' @ escape (String v)) val)])
       rest"
| "push_params cmdStringParts ((key, Scalar val) # rest) =
     push_params (cmdStringParts @ [escape key @ ''='' @ escape (String val)]) rest"

text \<open>The text of the command that \<^verbatim>\<open>send\<close> queues.\<close>

definition command_text :: "string \<Rightarrow> options \<Rightarrow> scalar list \<Rightarrow> string" where
  "command_text c opts rest =
     (let flags = (case opts of Flag v \<Rightarrow> if truthy v then v # rest else rest | _ \<Rightarrow> rest);
          cmdStringParts =
            (case opts of Options kvs \<Rightarrow> push_params [c] (for_in kvs) | _ \<Rightarrow> [c])
      in join [space] (cmdStringParts @ map (\<lambda>f. escape (String f)) flags))"

text \<open>\<^verbatim>\<open>send\<close>: the promise it returns and the client after it.\<close>

definition send :: "string \<Rightarrow> options \<Rightarrow> scalar list \<Rightarrow> client \<Rightarrow> nat \<times> client" where
  "send c opts rest s =
     (let s1 = s\<lparr>queue := queue s @ [\<lparr>cmd = command_text c opts rest, pid = promises s,
                                     data = None\<rparr>],
                 promises := promises s + 1\<rparr>
      in (promises s, if statusLines s1 > 1 then checkQueue s1 else s1))"

subsection \<open>Runs\<close>

text \<open>
  The client is driven by three kinds of events: a call of \<^verbatim>\<open>send\<close>, a line from the
  server, and the registration of a listener with \<^verbatim>\<open>on\<close>. A line whose handling throws
  leaves the client as it was.
\<close>

datatype event = Submit string options "scalar list" | Line string | On string listener

fun step :: "client \<Rightarrow> event \<Rightarrow> client" where
  "step s (Submit c opts rest) = snd (send c opts rest s)"
| "step s (Line l) = (case handleLine l s of Inl _ \<Rightarrow> s | Inr s' \<Rightarrow> s')"
| "step s (On name l) = s\<lparr>listeners := listeners s @ [(name, l)]\<rparr>"

definition run :: "client \<Rightarrow> event list \<Rightarrow> client" where
  "run s evs = foldl step s evs"

subsection \<open>Observations on a run\<close>

text \<open>
  The texts written to the socket and the promises settled, each in the order of the
  effects; the command texts of the submissions of a run, in order; the number of lines
  of a run.
\<close>

fun writes :: "effect list \<Rightarrow> string list" where
  "writes [] = []"
| "writes (Write t # es) = t # writes es"
| "writes (_ # es) = writes es"

fun settled :: "effect list \<Rightarrow> nat list" where
  "settled [] = []"
| "settled (Resolve p _ # es) = p # settled es"
| "settled (Reject p _ # es) = p # settled es"
| "settled (_ # es) = settled es"

fun submitted :: "event list \<Rightarrow> string list" where
  "submitted [] = []"
| "submitted (Submit c opts rest # evs) = command_text c opts rest # submitted evs"
| "submitted (_ # evs) = submitted evs"

fun line_count :: "event list \<Rightarrow> nat" where
  "line_count [] = 0"
| "line_count (Line _ # evs) = Suc (line_count evs)"
| "line_count (_ # evs) = line_count evs"

text \<open>The commands written to the socket and not yet settled: the current one, if any.\<close>

definition in_flight :: "client \<Rightarrow> pending list" where
  "in_flight s = (case current s of None \<Rightarrow> [] | Some c \<Rightarrow> [c])"

text \<open>
  The invariant of a run whose submissions so far have the texts \<open>subs\<close>. Its core holds
  at every point of a handler: the promises settled are the first \<open>k\<close>, the texts
  written are those of the first \<open>k\<close> submissions and of the command in flight, the
  command in flight and the queue hold the remaining submissions in order, and nothing
  has happened before the second banner line. Between two events, moreover, the queue is
  empty whenever the banner is over and no command is in flight.
\<close>

definition core_inv :: "string list \<Rightarrow> client \<Rightarrow> bool" where
  "core_inv subs s =
     (let k = length (settled (effects s)) in
      promises s = length subs
      \<and> k \<le> length subs
      \<and> settled (effects s) = [0..<k]
      \<and> writes (effects s) = map (\<lambda>t. t @ [newline]) (take (k + length (in_flight s)) subs)
      \<and> map pid (in_flight s @ queue s) = [k..<length subs]
      \<and> map cmd (in_flight s @ queue s) = drop k subs
      \<and> statusLines s \<le> 2
      \<and> (statusLines s < 2 \<longrightarrow> current s = None \<and> effects s = []))"

definition run_inv :: "string list \<Rightarrow> client \<Rightarrow> bool" where
  "run_inv subs s =
     (core_inv subs s \<and> (statusLines s = 2 \<and> current s = None \<longrightarrow> queue s = []))"

text \<open>
  An untagged line is one that the parser accepts without a tag; \<open>fields_of\<close> is the
  object the parser builds for a line, as the line handler sees it.
\<close>

definition untagged :: "string \<Rightarrow> bool" where
  "untagged l = (case parse (trim l) of None \<Rightarrow> False | Some r \<Rightarrow> resType r = None)"

definition fields_of :: "string \<Rightarrow> object" where
  "fields_of l = (case parse (trim l) of None \<Rightarrow> empty_object | Some r \<Rightarrow> params r)"

subsection \<open>The command text as the specification words it\<close>

text \<open>
  Following the specification's wording: a scalar parameter is rendered as
  \<open>escape(k)=escape(v)\<close>, a list-valued parameter as one pipe-joined run of such pairs,
  one for each element in list order; the command text is the command name followed by
  the tokens of the parameters in insertion order, joined by spaces.
\<close>

definition spec_token :: "string \<times> param_value \<Rightarrow> string" where
  "spec_token kv =
     (case snd kv of
        Scalar v \<Rightarrow> escape (fst kv) @ ''='' @ escape (String v)
      | Array vs \<Rightarrow> join [pipe] (map (\<lambda>v. escape (fst kv) @ ''='' @ escape (String v)) vs))"

definition spec_command_text :: "string \<Rightarrow> (string \<times> param_value) list \<Rightarrow> string" where
  "spec_command_text c kvs = join [space] (c # map spec_token kvs)"

section \<open>Lemmas on runs\<close>

lemma writes_append: "writes (es @ fs) = writes es @ writes fs"
  by (induction es rule: writes.induct) auto

lemma settled_append: "settled (es @ fs) = settled es @ settled fs"
  by (induction es rule: settled.induct) auto

lemma submitted_append: "submitted (es @ fs) = submitted es @ submitted fs"
  by (induction es rule: submitted.induct) auto

lemma line_count_append: "line_count (es @ fs) = line_count es + line_count fs"
  by (induction es rule: line_count.induct) auto

lemma run_inv_initial: "run_inv [] initial"
  by (simp add: run_inv_def core_inv_def initial_def in_flight_def)

lemma checkQueue_busy: "current s = Some c \<Longrightarrow> checkQueue s = s"
  by (simp add: checkQueue_def)

lemma checkQueue_empty: "queue s = [] \<Longrightarrow> checkQueue s = s"
  by (simp add: checkQueue_def split: option.splits)

lemma checkQueue_dispatch:
  "current s = None \<Longrightarrow> queue s = c # rest \<Longrightarrow>
   checkQueue s = s\<lparr>queue := rest, current := Some c,
                     effects := effects s @ [Write (cmd c @ [newline])]\<rparr>"
  by (simp add: checkQueue_def)

lemma in_flight_update [simp]:
  "in_flight (s\<lparr>queue := q\<rparr>) = in_flight s"
  "in_flight (s\<lparr>promises := n\<rparr>) = in_flight s"
  "in_flight (s\<lparr>listeners := ls\<rparr>) = in_flight s"
  "in_flight (s\<lparr>effects := es\<rparr>) = in_flight s"
  "in_flight (s\<lparr>statusLines := m\<rparr>) = in_flight s"
  "in_flight (s\<lparr>current := None\<rparr>) = []"
  "in_flight (s\<lparr>current := Some c\<rparr>) = [c]"
  by (simp_all add: in_flight_def)

lemma core_inv_dispatch:
  assumes inv: "core_inv subs s" and idle: "current s = None" and q: "queue s = c # rest"
    and ready: "statusLines s = 2"
  shows "core_inv subs (s\<lparr>queue := rest, current := Some c,
                          effects := effects s @ [Write (cmd c @ [newline])]\<rparr>)"
proof -
  define k where "k = length (settled (effects s))"
  have pids: "pid c # map pid rest = [k..<length subs]"
    and cmds: "cmd c # map cmd rest = drop k subs"
    and wr: "writes (effects s) = map (\<lambda>t. t @ [newline]) (take k subs)"
    and st: "settled (effects s) = [0..<k]"
    and pr: "promises s = length subs"
    using inv idle q by (simp_all add: core_inv_def Let_def in_flight_def k_def)
  from pids [symmetric] have klt: "k < length subs"
    and rest_pids: "map pid rest = [Suc k..<length subs]"
    by (auto simp: upt_eq_Cons_conv)
  from cmds klt have c_cmd: "cmd c = subs ! k" and rest_cmds: "map cmd rest = drop (Suc k) subs"
    by (simp_all add: Cons_nth_drop_Suc [symmetric])
  show ?thesis
    using st pr wr klt rest_pids rest_cmds c_cmd pids cmds ready
    by (simp add: core_inv_def Let_def k_def [symmetric] writes_append
        settled_append take_Suc_conv_app_nth)
qed

lemma run_inv_checkQueue:
  assumes "core_inv subs s" "statusLines s = 2"
  shows "run_inv subs (checkQueue s)"
proof (cases "current s")
  case (Some c)
  then show ?thesis using assms by (simp add: checkQueue_busy run_inv_def)
next
  case None
  show ?thesis
  proof (cases "queue s")
    case Nil
    then show ?thesis using assms by (simp add: checkQueue_empty run_inv_def)
  next
    case (Cons c rest)
    have "core_inv subs (checkQueue s)"
      using core_inv_dispatch [OF assms(1) None Cons assms(2)]
      by (simp add: checkQueue_dispatch [OF None Cons])
    then show ?thesis
      by (simp add: run_inv_def checkQueue_dispatch [OF None Cons])
  qed
qed

lemma core_inv_enqueue:
  assumes "core_inv subs s"
  shows "core_inv (subs @ [t])
           (s\<lparr>queue := queue s @ [\<lparr>cmd = t, pid = promises s, data = None\<rparr>],
              promises := promises s + 1\<rparr>)"
proof -
  define k where "k = length (settled (effects s))"
  have pids: "map pid (in_flight s @ queue s) = [k..<length subs]"
    and cmds: "map cmd (in_flight s @ queue s) = drop k subs"
    and wr: "writes (effects s) = map (\<lambda>t. t @ [newline]) (take (k + length (in_flight s)) subs)"
    and st: "settled (effects s) = [0..<k]"
    and pr: "promises s = length subs"
    and sl: "statusLines s \<le> 2" "statusLines s < 2 \<longrightarrow> current s = None \<and> effects s = []"
    using assms by (simp_all add: core_inv_def Let_def k_def)
  have len: "length (in_flight s) + length (queue s) = length subs - k"
    using arg_cong [OF pids, of length] by simp
  have kle: "k \<le> length subs"
    using assms by (simp add: core_inv_def Let_def k_def)
  have le2: "k + length (in_flight s) \<le> length subs"
    using len kle by arith
  show ?thesis
    using pids cmds wr st pr sl kle le2
    by (simp add: core_inv_def Let_def k_def [symmetric])
qed

lemma core_inv_settle:
  assumes inv: "core_inv subs s" and cur: "current s = Some c" and ready: "statusLines s = 2"
    and e: "e = Resolve (pid c) x \<or> e = Reject (pid c) y"
  shows "core_inv subs (s\<lparr>current := None, effects := effects s @ [e]\<rparr>)"
proof -
  define k where "k = length (settled (effects s))"
  have pids: "pid c # map pid (queue s) = [k..<length subs]"
    and cmds: "cmd c # map cmd (queue s) = drop k subs"
    and wr: "writes (effects s) = map (\<lambda>t. t @ [newline]) (take (Suc k) subs)"
    and st: "settled (effects s) = [0..<k]"
    and pr: "promises s = length subs"
    using inv cur by (simp_all add: core_inv_def Let_def in_flight_def k_def)
  from pids [symmetric] have klt: "k < length subs" and c_pid: "pid c = k"
    and rest_pids: "map pid (queue s) = [Suc k..<length subs]"
    by (auto simp: upt_eq_Cons_conv)
  from cmds klt have rest_cmds: "map cmd (queue s) = drop (Suc k) subs"
    by (simp add: Cons_nth_drop_Suc [symmetric])
  have se: "settled [e] = [k]" "writes [e] = []"
    using e c_pid by auto
  show ?thesis
    using st pr wr klt rest_pids rest_cmds ready se
    by (simp add: core_inv_def Let_def k_def [symmetric] writes_append settled_append)
qed

lemma core_inv_emit:
  assumes inv: "core_inv subs s" and ready: "statusLines s = 2"
  shows "core_inv subs (s\<lparr>effects := effects s @ [Emit n x l]\<rparr>)"
  using assms by (simp add: core_inv_def Let_def writes_append settled_append)

lemma core_inv_data:
  assumes inv: "core_inv subs s" and cur: "current s = Some c"
  shows "core_inv subs (s\<lparr>current := Some (c\<lparr>data := d\<rparr>)\<rparr>)"
  using assms by (simp add: core_inv_def Let_def in_flight_def)

lemma core_inv_banner:
  assumes inv: "core_inv subs s" and banner: "statusLines s < 2"
  shows "core_inv subs (s\<lparr>statusLines := statusLines s + 1\<rparr>)"
proof -
  from assms have idle: "current s = None" "effects s = []"
    by (simp_all add: core_inv_def Let_def)
  with inv banner show ?thesis
    by (simp add: core_inv_def Let_def in_flight_def)
qed

lemma run_inv_core: "run_inv subs s \<Longrightarrow> core_inv subs s"
  by (simp add: run_inv_def)

lemma core_inv_statusLines: "core_inv subs s \<Longrightarrow> statusLines s \<le> 2"
  by (simp add: core_inv_def Let_def)

lemma run_inv_send:
  assumes "run_inv subs s"
  shows "run_inv (subs @ [command_text c opts rest]) (snd (send c opts rest s))"
proof -
  let ?s1 = "s\<lparr>queue := queue s @ [\<lparr>cmd = command_text c opts rest, pid = promises s,
                                     data = None\<rparr>],
                 promises := promises s + 1\<rparr>"
  have core: "core_inv (subs @ [command_text c opts rest]) ?s1"
    using assms by (intro core_inv_enqueue run_inv_core)
  show ?thesis
  proof (cases "statusLines s > 1")
    case True
    then have "statusLines ?s1 = 2"
      using core_inv_statusLines [OF core] by simp
    from run_inv_checkQueue [OF core this] True show ?thesis
      by (simp add: send_def Let_def)
  next
    case False
    then show ?thesis using core by (simp add: send_def Let_def run_inv_def)
  qed
qed

lemma run_inv_handleLine:
  assumes inv: "run_inv subs s" and h: "handleLine l s = Inr s'"
  shows "run_inv subs s'"
proof (cases "statusLines s < 2")
  case True
  let ?s1 = "s\<lparr>statusLines := statusLines s + 1\<rparr>"
  have core: "core_inv subs ?s1"
    using inv True by (intro core_inv_banner run_inv_core)
  show ?thesis
  proof (cases "statusLines s = 1")
    case True
    then have "statusLines ?s1 = 2" by simp
    from run_inv_checkQueue [OF core this] h True show ?thesis
      by (auto simp: handleLine_def Let_def)
  next
    case False
    with True h core show ?thesis
      by (auto simp: handleLine_def Let_def run_inv_def)
  qed
next
  case False
  with inv have ready: "statusLines s = 2"
    using core_inv_statusLines [OF run_inv_core [OF inv]] by simp
  note core = run_inv_core [OF inv]
  show ?thesis
  proof (cases "parse (trim l)")
    case None
    with h ready inv show ?thesis by (simp add: handleLine_def)
  next
    case (Some r)
    consider (notify) "is_notify (resType r)"
      | (error) "\<not> is_notify (resType r)" "is_error (resType r)"
      | (data) "\<not> is_notify (resType r)" "\<not> is_error (resType r)"
      by blast
    then show ?thesis
    proof cases
      case notify
      let ?s1 = "s\<lparr>effects := effects s @ [Emit (event_name (resType r)) (params r) (trim l)]\<rparr>"
      have "core_inv subs ?s1" using core ready by (rule core_inv_emit)
      moreover have "statusLines ?s1 = 2" using ready by simp
      ultimately have "run_inv subs (checkQueue ?s1)" by (rule run_inv_checkQueue)
      with h Some notify ready show ?thesis
        by (simp add: handleLine_def Let_def split: option.splits)
    next
      case error
      show ?thesis
      proof (cases "current s")
        case None
        with h Some error ready show ?thesis by (simp add: handleLine_def Let_def)
      next
        case c: (Some c)
        let ?e = "if loose_eq_zero (get (params r) ''id'')
                  then Resolve (pid c) (case data c of Some d \<Rightarrow> d | None \<Rightarrow> params r)
                  else Reject (pid c) (params r)"
        let ?s1 = "s\<lparr>current := None, effects := effects s @ [?e]\<rparr>"
        have "core_inv subs ?s1"
          using core c ready by (rule core_inv_settle) auto
        moreover have "statusLines ?s1 = 2" using ready by simp
        ultimately have "run_inv subs (checkQueue ?s1)" by (rule run_inv_checkQueue)
        with h Some error ready c show ?thesis by (simp add: handleLine_def Let_def)
      qed
    next
      case data
      show ?thesis
      proof (cases "current s")
        case None
        have "run_inv subs (checkQueue s)" using core ready by (rule run_inv_checkQueue)
        with h Some data ready None show ?thesis by (simp add: handleLine_def Let_def)
      next
        case c: (Some c)
        let ?s1 = "s\<lparr>current := Some (c\<lparr>data := Some (params r)\<rparr>)\<rparr>"
        have "core_inv subs ?s1" using core c by (rule core_inv_data)
        moreover have "statusLines ?s1 = 2" using ready by simp
        ultimately have "run_inv subs (checkQueue ?s1)" by (rule run_inv_checkQueue)
        with h Some data ready c show ?thesis by (simp add: handleLine_def Let_def)
      qed
    qed
  qed
qed

lemma run_inv_step: "run_inv subs s \<Longrightarrow> run_inv (subs @ submitted [ev]) (step s ev)"
proof (cases ev)
  case (Submit c opts rest)
  assume "run_inv subs s"
  then show ?thesis using Submit by (simp add: run_inv_send)
next
  case (Line l)
  assume "run_inv subs s"
  then show ?thesis using Line
    by (cases "handleLine l s") (auto intro: run_inv_handleLine)
next
  case (On name l)
  assume "run_inv subs s"
  then show ?thesis using On
    by (simp add: run_inv_def core_inv_def Let_def)
qed

lemma run_snoc: "run s (evs @ [ev]) = step (run s evs) ev"
  by (simp add: run_def)

lemma run_inv_run: "run_inv (submitted evs) (run initial evs)"
proof (induction evs rule: rev_induct)
  case Nil
  show ?case by (simp add: run_def run_inv_initial)
next
  case (snoc ev evs)
  from run_inv_step [OF snoc, of ev] show ?case
    by (simp add: run_snoc submitted_append)
qed

lemma statusLines_checkQueue [simp]: "statusLines (checkQueue s) = statusLines s"
  by (simp add: checkQueue_def split: option.splits list.splits)

lemma statusLines_send [simp]: "statusLines (snd (send c opts rest s)) = statusLines s"
  by (simp add: send_def Let_def)

lemma handleLine_banner:
  "statusLines s < 2 \<Longrightarrow>
   handleLine l s = Inr (if statusLines s = 1 then checkQueue (s\<lparr>statusLines := 2\<rparr>)
                         else s\<lparr>statusLines := statusLines s + 1\<rparr>)"
  by (auto simp: handleLine_def Let_def numeral_2_eq_2)

lemma statusLines_handleLine:
  "handleLine l s = Inr s' \<Longrightarrow>
   statusLines s' = (if statusLines s < 2 then statusLines s + 1 else statusLines s)"
  by (auto simp: handleLine_def Let_def split: if_splits option.splits)

lemma handleLine_throws_ready: "handleLine l s = Inl e \<Longrightarrow> 2 \<le> statusLines s"
  by (auto simp: handleLine_def Let_def split: if_splits)

lemma handleLine_throws_notify_or_idle:
  assumes "handleLine l s = Inl e"
  shows "e = TypeError \<and> current s = None
         \<or> (\<exists>r. parse (trim l) = Some r \<and> is_notify (resType r)
                \<and> emit (listeners s) (event_name (resType r)) = Some e)"
  using assms
  by (auto simp: handleLine_def Let_def split: if_splits option.splits)

lemma statusLines_step_Line:
  "statusLines (step s (Line l)) = (if statusLines s < 2 then statusLines s + 1 else statusLines s)"
proof (cases "handleLine l s")
  case (Inl e)
  with handleLine_throws_ready [OF Inl] show ?thesis by simp
next
  case (Inr s')
  with statusLines_handleLine [OF Inr] show ?thesis by simp
qed

lemma statusLines_step_mono: "statusLines s \<le> statusLines (step s ev)"
  by (cases ev) (simp_all add: statusLines_step_Line del: step.simps(2))

lemma statusLines_run_mono: "statusLines s \<le> statusLines (run s evs)"
proof (induction evs rule: rev_induct)
  case Nil
  show ?case by (simp add: run_def)
next
  case (snoc ev evs)
  with statusLines_step_mono [of "run s evs" ev] show ?case
    by (simp add: run_snoc)
qed

lemma statusLines_run: "statusLines (run initial evs) = min 2 (line_count evs)"
proof (induction evs rule: rev_induct)
  case Nil
  show ?case by (simp add: run_def initial_def)
next
  case (snoc ev evs)
  show ?case
  proof (cases ev)
    case (Submit c opts rest)
    with snoc show ?thesis by (simp add: run_snoc line_count_append)
  next
    case (Line l)
    with snoc show ?thesis
      by (simp add: run_snoc line_count_append statusLines_step_Line del: step.simps(2))
  next
    case (On name l)
    with snoc show ?thesis by (simp add: run_snoc line_count_append)
  qed
qed

lemma handleLine_untagged:
  assumes "2 \<le> statusLines s" and "current s = Some c" and "untagged l"
  shows "handleLine l s = Inr (s\<lparr>current := Some (c\<lparr>data := Some (fields_of l)\<rparr>)\<rparr>)"
  using assms
  by (auto simp: handleLine_def Let_def is_notify_def is_error_def untagged_def fields_of_def
      checkQueue_busy split: option.splits)

lemma run_Cons: "run s (ev # evs) = run (step s ev) evs"
  by (simp add: run_def)

lemma run_data_lines:
  assumes "2 \<le> statusLines s" and "current s = Some c" and "list_all untagged ds" and "ds \<noteq> []"
  shows "run s (map Line ds) = s\<lparr>current := Some (c\<lparr>data := Some (fields_of (last ds))\<rparr>)\<rparr>"
  using assms
proof (induction ds arbitrary: s c)
  case Nil
  then show ?case by simp
next
  case (Cons l ds)
  let ?c = "c\<lparr>data := Some (fields_of l)\<rparr>"
  let ?s = "s\<lparr>current := Some ?c\<rparr>"
  from Cons.prems have st: "step s (Line l) = ?s"
    by (simp add: handleLine_untagged)
  show ?case
  proof (cases "ds = []")
    case True
    with st show ?thesis by (simp add: run_def)
  next
    case False
    have "run ?s (map Line ds) = ?s\<lparr>current := Some (?c\<lparr>data := Some (fields_of (last ds))\<rparr>)\<rparr>"
      using Cons.prems False by (intro Cons.IH) simp_all
    with st False show ?thesis by (simp add: run_Cons del: step.simps)
  qed
qed

lemma handleLine_error:
  assumes "2 \<le> statusLines s" and "parse (trim line) = Some r"
    and "resType r = Some ''error''"
  shows "handleLine line s =
           (case current s of
              None \<Rightarrow> Inl TypeError
            | Some c \<Rightarrow>
                Inr (checkQueue
                  (s\<lparr>current := None,
                     effects := effects s
                       @ [if loose_eq_zero (get (params r) ''id'')
                          then Resolve (pid c) (case data c of None \<Rightarrow> params r | Some d \<Rightarrow> d)
                          else Reject (pid c) (params r)]\<rparr>)))"
  using assms by (simp add: handleLine_def Let_def is_notify_def is_error_def)

lemma push_params_append: "push_params acc kvs = acc @ map spec_token kvs"
proof (induction acc kvs rule: push_params.induct)
  case (1 acc)
  show ?case by simp
next
  case (2 acc key val rest)
  then show ?case by (simp add: spec_token_def)
next
  case (3 acc key val rest)
  then show ?case by (simp add: spec_token_def)
qed

lemma for_in_no_index:
  assumes "list_all (\<lambda>kv. array_index (fst kv) = None) kvs"
  shows "for_in kvs = kvs"
proof -
  from assms have "filter (\<lambda>kv. array_index (fst kv) \<noteq> None) kvs = []"
    by (induction kvs) auto
  moreover from assms have "filter (\<lambda>kv. array_index (fst kv) = None) kvs = kvs"
    by (induction kvs) auto
  ultimately show ?thesis by (simp add: for_in_def)
qed

section \<open>Lemmas on the codec and the parser\<close>

lemmas reserved_defs =
  backslash_def slash_def pipe_def newline_def carriage_return_def tab_def vertical_tab_def
  form_feed_def space_def

lemma replace_char_append:
  "replace_char c r (xs @ ys) = replace_char c r xs @ replace_char c r ys"
  by (induction xs) simp_all

lemma escape_append: "escape (xs @ ys) = escape xs @ escape ys"
  by (simp add: escape_def replace_char_append)

lemma escape_Cons: "escape (x # xs) = escape [x] @ escape xs"
  using escape_append [of "[x]" xs] by simp

lemma replace_pair_skip: "x \<noteq> a \<Longrightarrow> replace_pair a b r (x # xs) = x # replace_pair a b r xs"
  by (cases xs) simp_all

lemma replace_pair_miss:
  "y \<noteq> b \<Longrightarrow> y \<noteq> a \<Longrightarrow> replace_pair a b r (a # y # xs) = a # y # replace_pair a b r xs"
  by (simp add: replace_pair_skip)

lemma unescape_plain: "c \<noteq> backslash \<Longrightarrow> unescape (c # t) = c # unescape t"
  by (simp add: unescape_def replace_pair_skip)

lemma unescape_pair:
  "unescape (backslash # slash # t) = slash # unescape t"
  "unescape (backslash # CHR ''p'' # t) = pipe # unescape t"
  "unescape (backslash # CHR ''n'' # t) = newline # unescape t"
  "unescape (backslash # CHR ''r'' # t) = carriage_return # unescape t"
  "unescape (backslash # CHR ''t'' # t) = tab # unescape t"
  "unescape (backslash # CHR ''v'' # t) = vertical_tab # unescape t"
  "unescape (backslash # CHR ''f'' # t) = form_feed # unescape t"
  "unescape (backslash # CHR ''s'' # t) = space # unescape t"
  by (simp_all add: unescape_def replace_pair_skip reserved_defs)

lemma escape_single:
  "escape [x] =
     (if x = backslash then [backslash, backslash]
      else if x = slash then [backslash, slash]
      else if x = pipe then [backslash, CHR ''p'']
      else if x = newline then [backslash, CHR ''n'']
      else if x = carriage_return then [backslash, CHR ''r'']
      else if x = tab then [backslash, CHR ''t'']
      else if x = vertical_tab then [backslash, CHR ''v'']
      else if x = form_feed then [backslash, CHR ''f'']
      else if x = space then [backslash, CHR ''s'']
      else [x])"
  by (simp add: escape_def reserved_defs)

lemma split_eq_not_Nil: "split_eq v \<noteq> []"
  by (induction v) (simp_all split: list.splits)

lemma split_eq_hd: "hd (split_eq v) = takeWhile (\<lambda>c. c \<noteq> CHR ''='') v"
  by (induction v) (auto simp: split_eq_not_Nil split: list.splits)

lemma split_eq_key: "CHR ''='' \<notin> set k \<Longrightarrow> split_eq (k @ CHR ''='' # v) = k # split_eq v"
  by (induction k) auto

lemma put_own_fresh: "map_of kvs k = None \<Longrightarrow> put_own kvs k v = kvs @ [(k, v)]"
  by (induction kvs) (auto split: if_splits)

lemma array_index_proto: "array_index ''__proto__'' = None"
  by (simp add: array_index_def is_digit_def)

lemma has_property_proto: "has_property obj ''__proto__''"
  by (simp add: has_property_def inherited_def object_prototype_get_def array_index_proto
      array_prototype_keys_def split: option.splits)

section \<open>Round trip of the codec\<close>

text \<open>
  C1. The round trip \<open>unescape (escape s) = s\<close> fails for the two-character string made
  of a backslash and the letter \<open>p\<close>. \<open>escape\<close> doubles the backslash; the first pass of
  \<open>unescape\<close> turns the pair back into one backslash, and the third pass then reads that
  backslash and the \<open>p\<close> as the escape sequence of the pipe: the string comes back as a
  single pipe character.
\<close>

theorem unescape_escape_backslash_p:
  "escape [backslash, CHR ''p''] = [backslash, backslash, CHR ''p'']
   \<and> unescape (escape [backslash, CHR ''p'']) = [pipe]
   \<and> unescape (escape [backslash, CHR ''p'']) \<noteq> [backslash, CHR ''p'']"
  by code_simp

text \<open>
  The round trip does hold for every string in which no backslash occurs: each reserved
  character becomes a backslash and a letter, and the pass of \<open>unescape\<close> for that letter
  is the only one that touches the pair.
\<close>

lemma unescape_escape_no_backslash:
  "backslash \<notin> set s \<Longrightarrow> unescape (escape s) = s"
proof (induction s)
  case Nil
  show ?case by (simp add: escape_def unescape_def)
next
  case (Cons x s)
  then have x: "x \<noteq> backslash" and IH: "unescape (escape s) = s" by auto
  show ?case
    using x IH
    by (subst escape_Cons) (simp add: escape_single unescape_pair unescape_plain)
qed

section \<open>Serialized commands and their settling\<close>

text \<open>
  C2. In every run of submissions and lines from the initial client, at most one command
  is in flight: the texts written to the socket are those of the first submissions, in
  order, and their number is the number of promises settled plus the command in flight,
  which is at most one. The promises are settled in the order of their creation,
  \<open>0, 1, \<dots>, k - 1\<close>, which is the order of submission, since the promise a call of
  \<^verbatim>\<open>send\<close> returns is numbered by the submissions before it; the command in flight and
  the queue hold the remaining submissions in order.
\<close>

theorem one_in_flight_fifo:
  "let s = run initial evs; k = length (settled (effects s)) in
     length (in_flight s) \<le> 1
     \<and> length (writes (effects s)) = k + length (in_flight s)
     \<and> writes (effects s)
         = map (\<lambda>t. t @ [newline]) (take (k + length (in_flight s)) (submitted evs))
     \<and> settled (effects s) = [0..<k]
     \<and> map pid (in_flight s @ queue s) = [k..<length (submitted evs)]
     \<and> map cmd (in_flight s @ queue s) = drop k (submitted evs)
     \<and> fst (send c opts rest s) = length (submitted evs)"
proof -
  define s where "s = run initial evs"
  define k where "k = length (settled (effects s))"
  have core: "core_inv (submitted evs) s"
    unfolding s_def by (rule run_inv_core [OF run_inv_run])
  have one: "length (in_flight s) \<le> 1"
    by (simp add: in_flight_def split: option.splits)
  have pids: "map pid (in_flight s @ queue s) = [k..<length (submitted evs)]"
    and cmds: "map cmd (in_flight s @ queue s) = drop k (submitted evs)"
    and wr: "writes (effects s)
             = map (\<lambda>t. t @ [newline]) (take (k + length (in_flight s)) (submitted evs))"
    and st: "settled (effects s) = [0..<k]"
    and pr: "promises s = length (submitted evs)"
    and kle: "k \<le> length (submitted evs)"
    using core by (simp_all add: core_inv_def Let_def k_def)
  have "length (in_flight s) + length (queue s) = length (submitted evs) - k"
    using arg_cong [OF pids, of length] by simp
  with kle have "k + length (in_flight s) \<le> length (submitted evs)" by arith
  with wr have len: "length (writes (effects s)) = k + length (in_flight s)" by simp
  have sent: "fst (send c opts rest s) = length (submitted evs)"
    using pr by (simp add: send_def Let_def)
  show ?thesis
    unfolding Let_def s_def [symmetric] k_def [symmetric]
    using one len wr st pids cmds sent by blast
qed

theorem one_in_flight_fifo_witness:
  "settled (effects (run initial
     [Submit ''use'' (Options [(''sid'', Scalar (SInt 1))]) [], Line ''TS3'',
      Submit ''whoami'' Absent [], Line ''Welcome'', Line ''error id=0 msg=ok''])) = [0]
   \<and> writes (effects (run initial
     [Submit ''use'' (Options [(''sid'', Scalar (SInt 1))]) [], Line ''TS3'',
      Submit ''whoami'' Absent [], Line ''Welcome'', Line ''error id=0 msg=ok'']))
     = [''use sid=1'' @ [newline], ''whoami'' @ [newline]]"
proof -
  let ?evs = "[Submit ''use'' (Options [(''sid'', Scalar (SInt 1))]) [], Line ''TS3'',
               Submit ''whoami'' Absent [], Line ''Welcome'', Line ''error id=0 msg=ok'']"
  have k: "length (settled (effects (run initial ?evs))) = 1" by code_simp
  have f: "length (in_flight (run initial ?evs)) = 1" by code_simp
  have sub: "submitted ?evs = [''use sid=1'', ''whoami'']" by code_simp
  from one_in_flight_fifo [of ?evs "''x''" Absent "[]"] show ?thesis
    unfolding Let_def k f sub by simp
qed

text \<open>
  C3. A terminator line handled while a command \<open>c\<close> is current settles the promise of
  \<open>c\<close>: when the \<open>id\<close> field of the line is loosely equal to 0 the promise is resolved,
  with the data of \<open>c\<close> if a data line has set it and with the fields of the terminator
  otherwise; when it is not, the promise is rejected with the fields of the terminator.
  In both cases \<open>current\<close> is cleared, and the queue is then checked.
\<close>

theorem terminator_settles_current:
  assumes "2 \<le> statusLines s" and "current s = Some c"
    and "parse (trim line) = Some r" and "resType r = Some ''error''"
  shows "handleLine line s =
           Inr (checkQueue
             (s\<lparr>current := None,
                effects := effects s
                  @ [if loose_eq_zero (get (params r) ''id'')
                     then Resolve (pid c) (case data c of None \<Rightarrow> params r | Some d \<Rightarrow> d)
                     else Reject (pid c) (params r)]\<rparr>))"
  using handleLine_error [OF assms(1,3,4)] assms(2) by simp

theorem terminator_settles_current_witness:
  "handleLine ''error id=0 msg=ok''
     (run initial [Line ''TS3'', Line ''Welcome'', Submit ''whoami'' Absent []])
   = Inr \<lparr>queue = [], current = None, statusLines = 2, listeners = [], promises = 1,
          effects = [Write (''whoami'' @ [newline]),
                     Resolve 0 \<lparr>own = [(''id'', JStr ''0''), (''msg'', JStr ''ok'')],
                                proto = None\<rparr>]\<rparr>"
proof -
  let ?s = "run initial [Line ''TS3'', Line ''Welcome'', Submit ''whoami'' Absent []]"
  let ?c = "\<lparr>cmd = ''whoami'', pid = 0, data = None\<rparr>"
  let ?r = "\<lparr>resType = Some ''error'',
            params = \<lparr>own = [(''id'', JStr ''0''), (''msg'', JStr ''ok'')], proto = None\<rparr>\<rparr>"
  have h1: "2 \<le> statusLines ?s" by code_simp
  have h2: "current ?s = Some ?c" by code_simp
  have h3: "parse (trim ''error id=0 msg=ok'') = Some ?r" by code_simp
  have h4: "resType ?r = Some ''error''" by simp
  have "checkQueue
          (?s\<lparr>current := None,
              effects := effects ?s
                @ [if loose_eq_zero (get (params ?r) ''id'')
                   then Resolve (pid ?c) (case data ?c of None \<Rightarrow> params ?r | Some d \<Rightarrow> d)
                   else Reject (pid ?c) (params ?r)]\<rparr>)
        = \<lparr>queue = [], current = None, statusLines = 2, listeners = [], promises = 1,
           effects = [Write (''whoami'' @ [newline]),
                      Resolve 0 \<lparr>own = [(''id'', JStr ''0''), (''msg'', JStr ''ok'')],
                                 proto = None\<rparr>]\<rparr>"
    by code_simp
  with terminator_settles_current [OF h1 h2 h3 h4] show ?thesis
    by (simp only:)
qed

section \<open>Banner\<close>

text \<open>
  C4. In every run from the initial client, the count of status lines is the number of
  lines received, capped at 2, and it never decreases when the run goes on. As long as
  fewer than two lines have been received nothing has been written (the client has had
  no effect at all) and no command is current. While the count is below 2 the handling
  of a line does not depend on what the line says: the line is not parsed.
\<close>

theorem banner_lines_precede_dispatch:
  "let s = run initial evs in
     statusLines s = min 2 (line_count evs)
     \<and> (line_count evs < 2 \<longrightarrow> effects s = [] \<and> current s = None)
     \<and> (statusLines s < 2 \<longrightarrow> handleLine l s = handleLine l' s)
     \<and> statusLines s \<le> statusLines (run s evs')"
proof -
  define s where "s = run initial evs"
  have sl: "statusLines s = min 2 (line_count evs)"
    unfolding s_def by (rule statusLines_run)
  have core: "core_inv (submitted evs) s"
    unfolding s_def by (rule run_inv_core [OF run_inv_run])
  have quiet: "line_count evs < 2 \<longrightarrow> effects s = [] \<and> current s = None"
    using core sl by (simp add: core_inv_def Let_def)
  have same: "statusLines s < 2 \<longrightarrow> handleLine l s = handleLine l' s"
    by (simp add: handleLine_banner)
  show ?thesis
    unfolding Let_def s_def [symmetric]
    using sl quiet same statusLines_run_mono [of s evs'] by blast
qed

theorem banner_lines_precede_dispatch_witness:
  "line_count [Submit ''whoami'' Absent [], Line ''error id=0''] < 2
   \<and> statusLines (run initial [Submit ''whoami'' Absent [], Line ''error id=0'']) < 2
   \<and> effects (run initial [Submit ''whoami'' Absent [], Line ''error id=0'']) = []
   \<and> current (run initial [Submit ''whoami'' Absent [], Line ''error id=0'']) = None
   \<and> handleLine ''error id=0'' (run initial [Submit ''whoami'' Absent [], Line ''error id=0''])
       = handleLine ''TS3'' (run initial [Submit ''whoami'' Absent [], Line ''error id=0''])"
proof -
  let ?evs = "[Submit ''whoami'' Absent [], Line ''error id=0'']"
  have h1: "line_count ?evs < 2" by simp
  have h2: "statusLines (run initial ?evs) < 2" by code_simp
  from banner_lines_precede_dispatch [of ?evs "''error id=0''" "''TS3''" "[]"] h1 h2
  show ?thesis unfolding Let_def by blast
qed

section \<open>Command text\<close>

text \<open>
  C5, as stated, fails: the loop over the parameters visits the keys in the order of
  \<^verbatim>\<open>for ... in\<close>, which puts a key that is an array index before the others. With the
  parameters \<open>b\<close> and then \<open>1\<close>, the token of \<open>1\<close> comes first.
\<close>

theorem command_text_index_key_first:
  "command_text ''x'' (Options [(''b'', Scalar (SInt 1)), (''1'', Scalar (SInt 2))]) []
     = ''x 1=2 b=1''
   \<and> spec_command_text ''x'' [(''b'', Scalar (SInt 1)), (''1'', Scalar (SInt 2))]
     = ''x b=1 1=2''
   \<and> command_text ''x'' (Options [(''b'', Scalar (SInt 1)), (''1'', Scalar (SInt 2))]) []
     \<noteq> spec_command_text ''x'' [(''b'', Scalar (SInt 1)), (''1'', Scalar (SInt 2))]"
  by code_simp

text \<open>
  C5, amended. The command text is the command name, then one token for each parameter
  in the order of \<^verbatim>\<open>for ... in\<close> (the keys that are array indices in ascending numeric
  order, then the other keys in insertion order), then the escaped flags, all joined by
  spaces. A scalar parameter gives the token \<open>escape(k)=escape(v)\<close>, a list-valued one the
  pipe-joined run of such pairs in list order. When no key is an array index the tokens
  are in insertion order, and the submission of \<open>clientkick\<close> with \<open>reasonid: 5\<close> and
  \<open>clid: [1,2,3]\<close> has the text \<open>clientkick reasonid=5 clid=1|clid=2|clid=3\<close>.
\<close>

theorem command_text_tokens:
  "command_text c (Options kvs) rest
     = join [space] (c # map spec_token (for_in kvs) @ map (\<lambda>f. escape (String f)) rest)
   \<and> (list_all (\<lambda>kv. array_index (fst kv) = None) kvs
        \<longrightarrow> command_text c (Options kvs) [] = spec_command_text c kvs)
   \<and> command_text ''clientkick''
        (Options [(''reasonid'', Scalar (SInt 5)), (''clid'', Array [SInt 1, SInt 2, SInt 3])]) []
       = ''clientkick reasonid=5 clid=1|clid=2|clid=3''"
proof -
  have general: "command_text c (Options kvs) rest
     = join [space] (c # map spec_token (for_in kvs) @ map (\<lambda>f. escape (String f)) rest)"
    for c kvs rest
    by (simp add: command_text_def push_params_append)
  have ordered: "command_text c (Options kvs) [] = spec_command_text c kvs"
    if "list_all (\<lambda>kv. array_index (fst kv) = None) kvs"
    using that by (simp add: general for_in_no_index spec_command_text_def)
  have example: "command_text ''clientkick''
        (Options [(''reasonid'', Scalar (SInt 5)), (''clid'', Array [SInt 1, SInt 2, SInt 3])]) []
       = ''clientkick reasonid=5 clid=1|clid=2|clid=3''"
    by code_simp
  from general ordered example show ?thesis by blast
qed

theorem command_text_tokens_witness:
  "list_all (\<lambda>kv. array_index (fst kv) = None)
     [(''sid'', Scalar (SInt 1)), (''client_nickname'', Scalar (SStr ''a b''))]
   \<and> command_text ''use''
        (Options [(''sid'', Scalar (SInt 1)), (''client_nickname'', Scalar (SStr ''a b''))]) []
       = spec_command_text ''use''
           [(''sid'', Scalar (SInt 1)), (''client_nickname'', Scalar (SStr ''a b''))]"
proof -
  let ?kvs = "[(''sid'', Scalar (SInt 1)), (''client_nickname'', Scalar (SStr ''a b''))]"
  have h: "list_all (\<lambda>kv. array_index (fst kv) = None) ?kvs" by code_simp
  from command_text_tokens [of "''use''" ?kvs "[]"] h show ?thesis by blast
qed

section \<open>Fields of a parsed line\<close>

text \<open>
  C6. A token is split at every \<open>=\<close>, and only the first two pieces are used: in the
  token \<open>a=b=c\<close> the tokenizer takes \<open>b=c\<close> as the value, and the field stored for the
  key \<open>a\<close> is \<open>b\<close>; the text after the second \<open>=\<close> is lost.
\<close>

theorem parse_value_with_equals_sign:
  "scan True ''a=b=c'' = [''a=b=c'']
   \<and> parse ''a=b=c''
       = Some \<lparr>resType = None, params = \<lparr>own = [(''a'', JStr ''b'')], proto = None\<rparr>\<rparr>"
  by code_simp

text \<open>
  In general, for a token made of a key without \<open>=\<close>, an \<open>=\<close> and a rest, the key is
  the unescaped text before the \<open>=\<close> and the value is the unescaped text between that
  \<open>=\<close> and the next one, or the end of the token when there is no other.
\<close>

lemma add_field_key_value:
  assumes "CHR ''='' \<notin> set k"
  shows "add_field obj (k @ CHR ''='' # v) =
           (let key = unescape k;
                val = JStr (unescape (takeWhile (\<lambda>c. c \<noteq> CHR ''='') v))
            in if has_property obj key then
                 (if \<not> is_array (get obj key) then assign obj key (JArr [get obj key, val])
                  else push obj key val)
               else assign obj key val)"
proof -
  obtain p ps where sp: "split_eq v = p # ps"
    using split_eq_not_Nil [of v] by (cases "split_eq v") auto
  then have "p = takeWhile (\<lambda>c. c \<noteq> CHR ''='') v"
    using split_eq_hd [of v] by simp
  with sp assms show ?thesis
    by (simp add: add_field_def split_eq_key Let_def)
qed

section \<open>Data lines\<close>

text \<open>
  C7. While a command \<open>c\<close> is current, an untagged line replaces the data of \<open>c\<close> by its
  own fields. Hence one or more untagged lines followed by a terminator whose \<open>id\<close> is
  loosely equal to 0 resolve the promise of \<open>c\<close> with the fields of the last of these
  lines, whatever the fields of the terminator are.
\<close>

theorem data_then_success_resolves_with_last_data:
  assumes "2 \<le> statusLines s" and "current s = Some c"
    and "list_all untagged ds" and "ds \<noteq> []"
    and "parse (trim t) = Some r" and "resType r = Some ''error''"
    and "loose_eq_zero (get (params r) ''id'')"
  shows "(\<forall>l. untagged l \<longrightarrow>
            handleLine l s = Inr (s\<lparr>current := Some (c\<lparr>data := Some (fields_of l)\<rparr>)\<rparr>))
         \<and> run s (map Line ds @ [Line t])
             = checkQueue (s\<lparr>current := None,
                             effects := effects s @ [Resolve (pid c) (fields_of (last ds))]\<rparr>)"
proof -
  let ?c = "c\<lparr>data := Some (fields_of (last ds))\<rparr>"
  let ?s = "s\<lparr>current := Some ?c\<rparr>"
  have mid: "run s (map Line ds) = ?s"
    using assms(1-4) by (rule run_data_lines)
  have "handleLine t ?s =
          Inr (checkQueue (?s\<lparr>current := None,
                 effects := effects ?s
                   @ [if loose_eq_zero (get (params r) ''id'')
                      then Resolve (pid ?c) (case data ?c of None \<Rightarrow> params r | Some d \<Rightarrow> d)
                      else Reject (pid ?c) (params r)]\<rparr>))"
    using handleLine_error [of ?s t r] assms(1,5,6) by simp
  then have last: "step ?s (Line t)
      = checkQueue (s\<lparr>current := None,
                      effects := effects s @ [Resolve (pid c) (fields_of (last ds))]\<rparr>)"
    using assms(7) by simp
  have "run s (map Line ds @ [Line t]) = step (run s (map Line ds)) (Line t)"
    by (rule run_snoc)
  with mid last show ?thesis
    using assms(1,2) by (simp add: handleLine_untagged del: step.simps)
qed

theorem data_then_success_resolves_with_last_data_witness:
  "run (run initial [Line ''TS3'', Line ''Welcome'', Submit ''version'' Absent []])
     (map Line [''version=3.0.0 build=1'', ''version=3.13.7 build=2''] @ [Line ''error id=0 msg=ok''])
   = \<lparr>queue = [], current = None, statusLines = 2, listeners = [], promises = 1,
      effects = [Write (''version'' @ [newline]),
                 Resolve 0 \<lparr>own = [(''version'', JStr ''3.13.7''), (''build'', JStr ''2'')],
                            proto = None\<rparr>]\<rparr>"
proof -
  let ?s = "run initial [Line ''TS3'', Line ''Welcome'', Submit ''version'' Absent []]"
  let ?c = "\<lparr>cmd = ''version'', pid = 0, data = None\<rparr>"
  let ?ds = "[''version=3.0.0 build=1'', ''version=3.13.7 build=2'']"
  let ?r = "\<lparr>resType = Some ''error'',
            params = \<lparr>own = [(''id'', JStr ''0''), (''msg'', JStr ''ok'')], proto = None\<rparr>\<rparr>"
  have h1: "2 \<le> statusLines ?s" by code_simp
  have h2: "current ?s = Some ?c" by code_simp
  have h3: "list_all untagged ?ds" by code_simp
  have h4: "?ds \<noteq> []" by simp
  have h5: "parse (trim ''error id=0 msg=ok'') = Some ?r" by code_simp
  have h6: "resType ?r = Some ''error''" by simp
  have h7: "loose_eq_zero (get (params ?r) ''id'')" by code_simp
  have "checkQueue (?s\<lparr>current := None,
                      effects := effects ?s @ [Resolve (pid ?c) (fields_of (last ?ds))]\<rparr>)
        = \<lparr>queue = [], current = None, statusLines = 2, listeners = [], promises = 1,
           effects = [Write (''version'' @ [newline]),
                      Resolve 0 \<lparr>own = [(''version'', JStr ''3.13.7''), (''build'', JStr ''2'')],
                                 proto = None\<rparr>]\<rparr>"
    by code_simp
  with data_then_success_resolves_with_last_data [OF h1 h2 h3 h4 h5 h6 h7] show ?thesis
    by (simp only:)
qed

section \<open>Notifications\<close>




section \<open>Repeated and inherited keys\<close>

text \<open>
  C9. The test \<^verbatim>\<open>v[0] in params\<close> is also true for a name that the fresh object
  inherits from its prototype. The first occurrence of the key \<open>toString\<close> is therefore
  treated as a repetition: the field becomes an array of the inherited function and the
  value, not the scalar value.
\<close>

theorem parse_inherited_key_first_occurrence:
  "parse ''toString=1''
     = Some \<lparr>resType = None,
             params = \<lparr>own = [(''toString'',
                               JArr [JFun ''Object.prototype'' ''toString'', JStr ''1''])],
                        proto = None\<rparr>\<rparr>
   \<and> fields_of ''toString=1'' \<noteq> \<lparr>own = [(''toString'', JStr ''1'')], proto = None\<rparr>"
  by code_simp

text \<open>
  For a key that the object neither owns nor inherits, the first occurrence adds a scalar
  field; a further occurrence of a key the object owns turns a scalar field into an array
  of the old and the new value, and appends to a field that is an array already. The
  line \<open>client_id=1 client_id=2\<close> gives the field \<open>client_id\<close> the array of \<open>1\<close> and \<open>2\<close>.
\<close>

lemma add_field_first_occurrence:
  assumes "CHR ''='' \<notin> set k" and "\<not> has_property obj (unescape k)"
  shows "add_field obj (k @ CHR ''='' # v) =
           obj\<lparr>own := own obj
                  @ [(unescape k, JStr (unescape (takeWhile (\<lambda>c. c \<noteq> CHR ''='') v)))]\<rparr>"
proof -
  from assms(2) have fresh: "map_of (own obj) (unescape k) = None"
    by (simp add: has_property_def)
  from assms(2) have "unescape k \<noteq> ''__proto__''"
    using has_property_proto [of obj] by auto
  with assms fresh show ?thesis
    by (simp add: add_field_key_value Let_def assign_def put_own_fresh)
qed

lemma add_field_second_occurrence:
  assumes "CHR ''='' \<notin> set k" and "map_of (own obj) (unescape k) = Some (JStr x)"
  shows "add_field obj (k @ CHR ''='' # v) =
           obj\<lparr>own := put_own (own obj) (unescape k)
                  (JArr [JStr x, JStr (unescape (takeWhile (\<lambda>c. c \<noteq> CHR ''='') v))])\<rparr>"
  using assms
  by (simp add: add_field_key_value Let_def assign_def has_property_def get_def)

lemma add_field_later_occurrence:
  assumes "CHR ''='' \<notin> set k" and "map_of (own obj) (unescape k) = Some (JArr xs)"
  shows "add_field obj (k @ CHR ''='' # v) =
           obj\<lparr>own := put_own (own obj) (unescape k)
                  (JArr (xs @ [JStr (unescape (takeWhile (\<lambda>c. c \<noteq> CHR ''='') v))]))\<rparr>"
  using assms
  by (simp add: add_field_key_value Let_def push_def has_property_def get_def)

lemma parse_repeated_key:
  "parse ''client_id=1 client_id=2''
     = Some \<lparr>resType = None,
             params = \<lparr>own = [(''client_id'', JArr [JStr ''1'', JStr ''2''])], proto = None\<rparr>\<rparr>"
  "parse ''client_id=1 client_id=2 client_id=3''
     = Some \<lparr>resType = None,
             params = \<lparr>own = [(''client_id'', JArr [JStr ''1'', JStr ''2'', JStr ''3''])],
                        proto = None\<rparr>\<rparr>"
  by code_simp+

lemma parse_examples:
  "parse ''error id=0 msg=ok''
     = Some \<lparr>resType = Some ''error'',
             params = \<lparr>own = [(''id'', JStr ''0''), (''msg'', JStr ''ok'')], proto = None\<rparr>\<rparr>"
  "parse ''notifyclientmoved clid=5 ctid=3''
     = Some \<lparr>resType = Some ''notifyclientmoved'',
             params = \<lparr>own = [(''clid'', JStr ''5''), (''ctid'', JStr ''3'')], proto = None\<rparr>\<rparr>"
  by code_simp+

section \<open>A terminator without a command\<close>

text \<open>
  C10. A terminator line handled after the banner while no command is current makes the
  line handler throw a \<^verbatim>\<open>TypeError\<close>: the line is not discarded.
\<close>

theorem terminator_without_current_throws:
  assumes "2 \<le> statusLines s" and "current s = None"
    and "parse (trim line) = Some r" and "resType r = Some ''error''"
  shows "handleLine line s = Inl TypeError"
  using handleLine_error [OF assms(1,3,4)] assms(2) by simp

theorem terminator_without_current_throws_witness:
  "handleLine ''error id=0 msg=ok'' (run initial [Line ''TS3'', Line ''Welcome''])
   = Inl TypeError"
proof -
  let ?s = "run initial [Line ''TS3'', Line ''Welcome'']"
  let ?r = "\<lparr>resType = Some ''error'',
            params = \<lparr>own = [(''id'', JStr ''0''), (''msg'', JStr ''ok'')], proto = None\<rparr>\<rparr>"
  have h1: "2 \<le> statusLines ?s" by code_simp
  have h2: "current ?s = None" by code_simp
  have h3: "parse (trim ''error id=0 msg=ok'') = Some ?r" by code_simp
  have h4: "resType ?r = Some ''error''" by simp
  from terminator_without_current_throws [OF h1 h2 h3 h4] show ?thesis .
qed

end
